theory Spec2Isabelle
  imports Complex_Main "HOL-Library.Word"
begin

unbundle bit_operations_syntax

section \<open>Common data\<close>

text \<open>
  Python \<open>str\<close> values are sequences of Unicode code points and \<open>len\<close> counts code
  points, so a string is a list of code points. \<open>py\<close> writes an ASCII literal.
  \<open>bytes\<close> values are lists of 8-bit words; a tensor of \<open>float32\<close> samples is a list of
  reals (see the section on the audio handler for why no rounding happens on the paths
  verified here).
\<close>

type_synonym str = "nat list"
type_synonym byte = "8 word"
type_synonym bytes = "byte list"
type_synonym int16 = "16 word"
type_synonym tensor = "real list"

abbreviation py :: "string \<Rightarrow> str" where
  "py s \<equiv> map of_char s"

text \<open>Exceptions are values: \<open>Inl e\<close> is a raised exception, \<open>Inr v\<close> a normal return.\<close>

datatype exn = ValueError | Exception

text \<open>\<open>try: body except Exception: handler\<close>.\<close>

definition try_except :: "exn + 'a \<Rightarrow> (exn \<Rightarrow> exn + 'a) \<Rightarrow> exn + 'a" where
  "try_except body handler = (case body of Inl e \<Rightarrow> handler e | Inr v \<Rightarrow> Inr v)"

section \<open>audio\_handler.py: PCM bytes and normalized tensors\<close>

text \<open>
  \<open>np.frombuffer(audio_bytes, dtype=np.int16)\<close> views the buffer as 16-bit signed
  integers, two bytes per sample, low byte first (the byte order of the capture format and
  of the machines the program runs on). It raises \<open>ValueError\<close> when the buffer size
  is not a multiple of the element size.
\<close>

definition int16_of_le :: "byte \<Rightarrow> byte \<Rightarrow> int16" where
  "int16_of_le lo hi = ucast lo OR push_bit 8 (ucast hi)"

fun int16_view :: "bytes \<Rightarrow> int16 list" where
  "int16_view (lo # hi # bs) = int16_of_le lo hi # int16_view bs"
| "int16_view _ = []"

definition frombuffer_int16 :: "bytes \<Rightarrow> exn + int16 list" where
  "frombuffer_int16 audio_bytes =
     (if odd (length audio_bytes) then Inl ValueError else Inr (int16_view audio_bytes))"

text \<open>\<open>ndarray.tobytes()\<close> of an \<open>int16\<close> array: the inverse view.\<close>

definition lo_byte :: "int16 \<Rightarrow> byte" where
  "lo_byte w = ucast w"

definition hi_byte :: "int16 \<Rightarrow> byte" where
  "hi_byte w = ucast (drop_bit 8 w)"

fun tobytes :: "int16 list \<Rightarrow> bytes" where
  "tobytes [] = []"
| "tobytes (w # ws) = lo_byte w # hi_byte w # tobytes ws"

text \<open>
  \<open>AudioHandler.bytes_to_tensor\<close>:
  \<^verbatim>\<open>
    try:
        audio_array = np.frombuffer(audio_bytes, dtype=np.int16)
        audio_array = audio_array.astype(np.float32) / 32768.0
        return torch.tensor(audio_array, dtype=torch.float32)
    except Exception as e:
        return torch.tensor([])
  \<close>
  A \<open>float32\<close> has a 24-bit significand, so every \<open>int16\<close> value \<open>k\<close> and every
  quotient \<open>k / 2^15\<close> is a \<open>float32\<close>: the conversion and the division are exact,
  and the real number \<open>k / 32768\<close> is the value the code computes
  (lemma \<open>bytes_to_tensor_float32\<close> below).
\<close>

definition normalize_sample :: "int16 \<Rightarrow> real" where
  "normalize_sample w = real_of_int (sint w) / 32768"

definition bytes_to_tensor :: "bytes \<Rightarrow> tensor" where
  "bytes_to_tensor audio_bytes =
     (case frombuffer_int16 audio_bytes of
        Inr audio_array \<Rightarrow> map normalize_sample audio_array
      | Inl e \<Rightarrow> [])"

text \<open>
  \<open>AudioHandler.save_audio\<close> and \<open>LanguageSwitchSystem.process_file\<close> denormalize with
  \<^verbatim>\<open>(audio_array * 32768.0).astype(np.int16)\<close>. The cast of a float to \<open>int16\<close>
  drops the fractional part (rounds towards zero); a value outside the \<open>int16\<close> range has
  no portable result and is wrapped here.
\<close>

definition trunc_to_zero :: "real \<Rightarrow> int" where
  "trunc_to_zero x = (if 0 \<le> x then \<lfloor>x\<rfloor> else \<lceil>x\<rceil>)"

definition astype_int16 :: "real \<Rightarrow> int16" where
  "astype_int16 x = word_of_int (trunc_to_zero x)"

definition denormalize :: "tensor \<Rightarrow> int16 list" where
  "denormalize audio_array = map (\<lambda>x. astype_int16 (x * 32768)) audio_array"

text \<open>
  The finite \<open>float32\<close> numbers: an integer significand below \<open>2^24\<close> in magnitude,
  scaled by a power of two between \<open>2^-149\<close> and \<open>2^104\<close>.
\<close>

definition float32 :: "real \<Rightarrow> bool" where
  "float32 x \<longleftrightarrow> (\<exists>m e. \<bar>m\<bar> < (2::int) ^ 24 \<and> - 149 \<le> e \<and> e \<le> (104::int)
                     \<and> x = real_of_int m * 2 powr real_of_int e)"

section \<open>Strings\<close>

text \<open>
  \<open>str.strip()\<close> removes leading and trailing whitespace. \<open>isspace\<close> lists the code
  points Python counts as whitespace.
\<close>

definition isspace :: "nat \<Rightarrow> bool" where
  "isspace c \<longleftrightarrow>
     (9 \<le> c \<and> c \<le> 13) \<or> (28 \<le> c \<and> c \<le> 32) \<or> c = 133 \<or> c = 160 \<or> c = 5760 \<or>
     (8192 \<le> c \<and> c \<le> 8202) \<or> c = 8232 \<or> c = 8233 \<or> c = 8239 \<or> c = 8287 \<or> c = 12288"

definition strip :: "str \<Rightarrow> str" where
  "strip s = rev (dropWhile isspace (rev (dropWhile isspace s)))"

section \<open>language\_detector.py\<close>

text \<open>
  The language-identification model is an external collaborator. \<open>classify_batch\<close>
  takes a batch of tensors and either raises or returns a prediction, of which the
  detector reads the language code \<open>prediction[3][0]\<close> and the score
  \<open>float(prediction[1][0])\<close>. The field \<open>model\<close> is \<open>None\<close> when loading failed.
  A score is a real number; a NaN score compares false with every threshold, as a score
  below the threshold does.
\<close>

record LanguageDetector =
  confidence_threshold :: real
  model :: "(tensor list \<Rightarrow> exn + (str \<times> real)) option"

text \<open>
  \<^verbatim>\<open>
    if self.model is None:
        return "en", 0.0
    try:
        if audio_tensor.dim() == 1:
            audio_tensor = audio_tensor.unsqueeze(0)
        prediction = self.model.classify_batch(audio_tensor)
        language = prediction[3][0]
        confidence = float(prediction[1][0])
        return language, confidence
    except Exception as e:
        return "en", 0.0
  \<close>
\<close>

definition detect_language :: "LanguageDetector \<Rightarrow> tensor \<Rightarrow> exn + (str \<times> real)" where
  "detect_language self audio_tensor =
     (case model self of
        None \<Rightarrow> Inr (py ''en'', 0)
      | Some classify_batch \<Rightarrow>
          try_except (classify_batch [audio_tensor]) (\<lambda>e. Inr (py ''en'', 0)))"

definition is_confidence_high :: "LanguageDetector \<Rightarrow> real \<Rightarrow> bool" where
  "is_confidence_high self confidence \<longleftrightarrow> confidence \<ge> confidence_threshold self"

section \<open>The Vosk recognizer\<close>

text \<open>
  The speech recognizer is an external, stateful collaborator; \<open>'r\<close> is its decode
  state. Every use in the program is \<open>AcceptWaveform(data)\<close> followed at once by
  \<open>Result()\<close> when it returned true and by \<open>PartialResult()\<close> otherwise, the JSON
  reply read with \<open>.get('text', '')\<close> or \<open>.get('partial', '')\<close>. \<open>accept\<close> is that
  pair of calls: it returns the new decode state and either the text read or the
  exception raised on the way. \<open>final\<close> is \<open>FinalResult()\<close> read with
  \<open>.get('text', '')\<close>, and \<open>construct\<close> is \<open>KaldiRecognizer(model, sample_rate)\<close>.
\<close>

datatype reply = Result str | PartialResult str

record 'r kaldi =
  construct :: "exn + 'r"
  accept :: "'r \<Rightarrow> bytes \<Rightarrow> (exn + reply) \<times> 'r"
  final :: "'r \<Rightarrow> exn + str"

section \<open>speech\_recognizer.py\<close>

record 'r SpeechRecognizer =
  recognizer :: "'r option"

text \<open>
  \<^verbatim>\<open>
    def transcribe_audio(self, audio_data, language="en"):
        if self.recognizer is None:
            return ""
        try:
            if self.recognizer.AcceptWaveform(audio_data):
                result = json.loads(self.recognizer.Result())
                return result.get('text', '').strip()
            else:
                result = json.loads(self.recognizer.PartialResult())
                return result.get('partial', '').strip()
        except Exception as e:
            return ""
  \<close>
  The \<open>language\<close> argument is not used.
\<close>

definition transcribe_audio ::
  "'r kaldi \<Rightarrow> 'r SpeechRecognizer \<Rightarrow> bytes \<Rightarrow> str \<Rightarrow> str \<times> 'r SpeechRecognizer" where
  "transcribe_audio K self audio_data language =
     (case recognizer self of
        None \<Rightarrow> ([], self)
      | Some r \<Rightarrow>
          (case accept K r audio_data of
             (Inr (Result text), r') \<Rightarrow> (strip text, self\<lparr>recognizer := Some r'\<rparr>)
           | (Inr (PartialResult partial), r') \<Rightarrow> (strip partial, self\<lparr>recognizer := Some r'\<rparr>)
           | (Inl e, r') \<Rightarrow> ([], self\<lparr>recognizer := Some r'\<rparr>)))"

section \<open>main.py: LanguageSwitchSystem\<close>

record 'r LanguageSwitchSystem =
  language_detector :: LanguageDetector
  speech_recognizer :: "'r SpeechRecognizer"
  current_language :: str

text \<open>
  \<^verbatim>\<open>
    def process_audio_chunk(self, audio_bytes: bytes) -> Optional[str]:
        """
        Process a single audio chunk through the pipeline
        Returns transcribed text if language is detected with high confidence
        """
        audio_tensor = self.audio_handler.bytes_to_tensor(audio_bytes)
        if audio_tensor.numel() == 0:
            return None
        detected_lang, confidence = self.language_detector.detect_language(audio_tensor)
        # Only process if confidence is high enough
        if self.language_detector.is_confidence_high(confidence):
            if detected_lang != self.current_language:
                print(...)
                self.current_language = detected_lang
            transcription = self.speech_recognizer.transcribe_audio(audio_bytes, detected_lang)
            return transcription
        return None
  \<close>
  The result is the returned value together with the system after the call; \<open>Inl\<close> would
  be an exception leaving the method.
\<close>

definition process_audio_chunk ::
  "'r kaldi \<Rightarrow> 'r LanguageSwitchSystem \<Rightarrow> bytes \<Rightarrow> exn + (str option \<times> 'r LanguageSwitchSystem)"
  where
  "process_audio_chunk K self audio_bytes =
     (let audio_tensor = bytes_to_tensor audio_bytes in
      if audio_tensor = [] then Inr (None, self)
      else
        (case detect_language (language_detector self) audio_tensor of
           Inl e \<Rightarrow> Inl e
         | Inr (detected_lang, confidence) \<Rightarrow>
             if is_confidence_high (language_detector self) confidence then
               (let self1 = (if detected_lang \<noteq> current_language self
                             then self\<lparr>current_language := detected_lang\<rparr> else self);
                    (transcription, sr) =
                      transcribe_audio K (speech_recognizer self1) audio_bytes detected_lang
                in Inr (Some transcription, self1\<lparr>speech_recognizer := sr\<rparr>))
             else Inr (None, self)))"

text \<open>
  Concrete collaborators for the examples: a recognizer with no decode state that hears
  \<open>hello\<close> in every chunk, a language model that always answers with a fixed language
  and score, and one that always raises.
\<close>

definition hello_kaldi :: "unit kaldi" where
  "hello_kaldi = \<lparr>construct = Inr (), accept = (\<lambda>r data. (Inr (Result (py ''hello'')), r)),
                  final = (\<lambda>r. Inr [])\<rparr>"

definition fixed_model :: "str \<Rightarrow> real \<Rightarrow> tensor list \<Rightarrow> exn + (str \<times> real)" where
  "fixed_model language score batch = Inr (language, score)"

definition failing_model :: "tensor list \<Rightarrow> exn + (str \<times> real)" where
  "failing_model batch = Inl Exception"

definition example_system ::
  "(tensor list \<Rightarrow> exn + (str \<times> real)) option \<Rightarrow> str \<Rightarrow> unit LanguageSwitchSystem" where
  "example_system m language =
     \<lparr>language_detector = \<lparr>confidence_threshold = 0.8, model = m\<rparr>,
      speech_recognizer = \<lparr>recognizer = Some ()\<rparr>,
      current_language = language\<rparr>"

definition unsure_system :: "unit LanguageSwitchSystem" where
  "unsure_system = example_system (Some (fixed_model (py ''hi'') 0.5)) (py ''en'')"

definition borderline_system :: "unit LanguageSwitchSystem" where
  "borderline_system = example_system (Some (fixed_model (py ''hi'') 0.8)) (py ''en'')"

definition broken_system :: "unit LanguageSwitchSystem" where
  "broken_system = example_system (Some failing_model) (py ''es'')"

section \<open>queue.Queue\<close>

text \<open>
  Python's \<open>queue.Queue(maxsize=0)\<close>: a FIFO; a \<open>maxsize\<close> of zero or less means the
  queue is unbounded. \<open>put\<close> blocks the caller while the queue is full: \<open>None\<close> stands
  for a caller that has to wait for a free slot. \<open>get\<close> with a timeout raises
  \<open>queue.Empty\<close> on an empty queue: \<open>None\<close>.
\<close>

record 'a Queue =
  maxsize :: int
  queue :: "'a list"

definition new_Queue :: "'a Queue" where
  "new_Queue = \<lparr>maxsize = 0, queue = []\<rparr>"

definition full :: "'a Queue \<Rightarrow> bool" where
  "full q \<longleftrightarrow> 0 < maxsize q \<and> maxsize q \<le> int (length (queue q))"

definition put :: "'a Queue \<Rightarrow> 'a \<Rightarrow> 'a Queue option" where
  "put q item = (if full q then None else Some (q\<lparr>queue := queue q @ [item]\<rparr>))"

definition get :: "'a Queue \<Rightarrow> ('a \<times> 'a Queue) option" where
  "get q = (case queue q of [] \<Rightarrow> None | item # rest \<Rightarrow> Some (item, q\<lparr>queue := rest\<rparr>))"

section \<open>realtime\_working.py: WorkingRealTimeSystem\<close>

text \<open>
  The fields of the object that the capture callback and the processing thread use.
  \<open>vosk_recognizer\<close> and \<open>tts_engine\<close> are \<open>None\<close> when their initialisation failed;
  the text-to-speech engine is an external collaborator whose \<open>say\<close> (with
  \<open>runAndWait\<close>) returns or raises. \<open>language_tag\<close> is the field
  \<open>current_language\<close> of this class, which is set to \<open>en\<close> and only read.
  \<open>SimpleWorkingSystem\<close> (simple\_working.py) has the same fields, except the queue
  and the language.
\<close>

record 'r WorkingRealTimeSystem =
  audio_queue :: "bytes Queue"
  is_recording :: bool
  language_tag :: str
  sample_rate :: nat
  vosk_recognizer :: "'r option"
  tts_engine :: "(str \<Rightarrow> exn + unit) option"

text \<open>The object after \<open>__init__\<close> and \<open>start_recording\<close>, given the two engines.\<close>

definition recording_system ::
  "'r option \<Rightarrow> (str \<Rightarrow> exn + unit) option \<Rightarrow> 'r WorkingRealTimeSystem" where
  "recording_system vosk tts =
     \<lparr>audio_queue = new_Queue, is_recording = True, language_tag = py ''en'',
      sample_rate = 16000, vosk_recognizer = vosk, tts_engine = tts\<rparr>"

text \<open>
  \<^verbatim>\<open>
    def _audio_callback(self, in_data, frame_count, time_info, status):
        if self.is_recording:
            self.audio_queue.put(in_data)
        return (in_data, pyaudio.paContinue)
  \<close>
\<close>

definition audio_callback ::
  "'r WorkingRealTimeSystem \<Rightarrow> bytes \<Rightarrow> 'r WorkingRealTimeSystem option" where
  "audio_callback self in_data =
     (if is_recording self
      then (case put (audio_queue self) in_data of
              None \<Rightarrow> None
            | Some q \<Rightarrow> Some (self\<lparr>audio_queue := q\<rparr>))
      else Some self)"

text \<open>
  An interleaving of the two threads at the queue: the capture callback fires with a
  frame, or the processing thread calls \<open>get\<close>. \<open>run_threads\<close> returns the frames the
  consumer got, in order, and the object at the end; \<open>None\<close> when the producer blocked.
\<close>

datatype queue_op = Capture bytes | Consume

fun run_threads ::
  "'r WorkingRealTimeSystem \<Rightarrow> queue_op list \<Rightarrow> (bytes list \<times> 'r WorkingRealTimeSystem) option"
  where
  "run_threads self [] = Some ([], self)"
| "run_threads self (Capture in_data # ops) =
     (case audio_callback self in_data of
        None \<Rightarrow> None
      | Some self' \<Rightarrow> run_threads self' ops)"
| "run_threads self (Consume # ops) =
     (case get (audio_queue self) of
        None \<Rightarrow> run_threads self ops
      | Some (audio_chunk, q) \<Rightarrow>
          (case run_threads (self\<lparr>audio_queue := q\<rparr>) ops of
             None \<Rightarrow> None
           | Some (got, self') \<Rightarrow> Some (audio_chunk # got, self')))"

fun captured :: "queue_op list \<Rightarrow> bytes list" where
  "captured [] = []"
| "captured (Capture in_data # ops) = in_data # captured ops"
| "captured (Consume # ops) = captured ops"

text \<open>
  What the processing thread writes and says. \<open>Heard language text\<close> is the line
  \<^verbatim>\<open>print(f"\n[{self.current_language.upper()}] {transcription}")\<close> (the language
  before upper-casing), \<open>Detected text\<close> the line \<open>Speech detected: ...\<close> of
  simple\_working.py, \<open>Say text\<close> the call \<open>self.tts_engine.say(text)\<close>; the
  others are the progress and error messages, which carry no transcript.
\<close>

datatype event =
    Processing nat
  | NoRecognizer
  | ChunkError
  | FinalError
  | ProcessingError
  | TTSError
  | NoSpeech
  | Heard str str
  | Detected str
  | Say str

text \<open>
  \<^verbatim>\<open>
    def speak_text(self, text: str):
        if self.tts_engine is None or not text.strip():
            return
        try:
            self.tts_engine.say(text)
            self.tts_engine.runAndWait()
        except Exception as e:
            print(f"TTS error: {e}")
  \<close>
\<close>

text \<open>The answer \<^verbatim>\<open>response = f"I heard: {transcription}"\<close>.\<close>

definition response :: "str \<Rightarrow> str" where
  "response transcription = py ''I heard: '' @ transcription"

definition speak_text :: "'r WorkingRealTimeSystem \<Rightarrow> str \<Rightarrow> event list" where
  "speak_text self text =
     (case tts_engine self of
        None \<Rightarrow> []
      | Some say \<Rightarrow>
          if strip text = [] then []
          else (case say text of Inr _ \<Rightarrow> [Say text] | Inl e \<Rightarrow> [Say text, TTSError]))"

text \<open>
  The sub-chunks of a window:
  \<^verbatim>\<open>
    chunk_size = 4000
    for i in range(0, len(audio_buffer), chunk_size):
        chunk_data = audio_buffer[i:i+chunk_size]
  \<close>
\<close>

definition sub_chunks :: "bytes \<Rightarrow> bytes list" where
  "sub_chunks audio_buffer =
     map (\<lambda>k. take 4000 (drop (4000 * k) audio_buffer))
       [0 ..< (length audio_buffer + 3999) div 4000]"

text \<open>
  The body of that loop, on the recognizer's decode state, the transcription kept so far
  and the messages written:
  \<^verbatim>\<open>
        if len(chunk_data) > 0:
            try:
                if recognizer.AcceptWaveform(chunk_data):
                    result = json.loads(recognizer.Result())
                    text = result.get('text', '').strip()
                    if text:
                        transcription = text
                else:
                    result = json.loads(recognizer.PartialResult())
                    partial = result.get('partial', '').strip()
                    if partial and len(partial) > len(transcription):
                        transcription = partial
            except Exception as e:
                print(f"Chunk processing error: {e}")
  \<close>
\<close>

definition feed_chunk ::
  "'r kaldi \<Rightarrow> 'r \<times> str \<times> event list \<Rightarrow> bytes \<Rightarrow> 'r \<times> str \<times> event list" where
  "feed_chunk K st chunk_data =
     (case st of (r, transcription, out) \<Rightarrow>
        if length chunk_data > 0 then
          (case accept K r chunk_data of
             (Inr (Result result), r') \<Rightarrow>
               (let text = strip result
                in (r', if text \<noteq> [] then text else transcription, out))
           | (Inr (PartialResult result), r') \<Rightarrow>
               (let partial = strip result
                in (r',
                    if partial \<noteq> [] \<and> length partial > length transcription
                    then partial else transcription,
                    out))
           | (Inl e, r') \<Rightarrow> (r', transcription, out @ [ChunkError]))
        else st)"

text \<open>
  \<^verbatim>\<open>
    try:
        final_result = json.loads(recognizer.FinalResult())
        final_text = final_result.get('text', '').strip()
        if final_text:
            transcription = final_text
    except Exception as e:
        print(f"Final result error: {e}")
  \<close>
\<close>

definition final_result :: "'r kaldi \<Rightarrow> 'r \<times> str \<times> event list \<Rightarrow> str \<times> event list" where
  "final_result K st =
     (case st of (r, transcription, out) \<Rightarrow>
        (case final K r of
           Inr result \<Rightarrow>
             (let final_text = strip result
              in (if final_text \<noteq> [] then final_text else transcription, out))
         | Inl e \<Rightarrow> (transcription, out @ [FinalError])))"

text \<open>Lines 196 to 224: the transcription of one window by a fresh recognizer.\<close>

definition transcribe_window :: "'r kaldi \<Rightarrow> 'r \<Rightarrow> bytes \<Rightarrow> str \<times> event list" where
  "transcribe_window K r audio_buffer =
     final_result K (foldl (feed_chunk K) (r, [], []) (sub_chunks audio_buffer))"

text \<open>
  Lines 226 to 235, the filter in front of the dispatcher; it returns the messages and
  the new \<open>last_transcription\<close>:
  \<^verbatim>\<open>
    if transcription and transcription != last_transcription and len(transcription) > 2:
        print(f"\n[{self.current_language.upper()}] {transcription}")
        response = f"I heard: {transcription}"
        self.speak_text(response)
        last_transcription = transcription
    else:
        print(" OK")  # No speech detected
  \<close>
\<close>

definition emit_transcription ::
  "'r WorkingRealTimeSystem \<Rightarrow> str \<Rightarrow> str \<Rightarrow> event list \<times> str" where
  "emit_transcription self last_transcription transcription =
     (if transcription \<noteq> [] \<and> transcription \<noteq> last_transcription \<and> length transcription > 2
      then (Heard (language_tag self) transcription
              # speak_text self (response transcription),
            transcription)
      else ([NoSpeech], last_transcription))"

text \<open>
  The local variables of \<open>_process_audio_queue\<close>, with the messages written so far, and
  the body of its loop for one chunk taken from the queue (a \<open>queue.Empty\<close> only
  repeats the loop). An exception of the recognizer's constructor reaches the outer
  handler, which writes a message and leaves the buffer as it is.
\<close>

record processing =
  audio_buffer :: bytes
  last_transcription :: str
  processing_count :: nat
  console :: "event list"

definition processing_start :: processing where
  "processing_start =
     \<lparr>audio_buffer = [], last_transcription = [], processing_count = 0, console = []\<rparr>"

definition process_chunk ::
  "'r kaldi \<Rightarrow> 'r WorkingRealTimeSystem \<Rightarrow> processing \<Rightarrow> bytes \<Rightarrow> processing" where
  "process_chunk K self st audio_chunk =
     (let buffer = audio_buffer st @ audio_chunk;
          buffer_size = sample_rate self * 3
      in if length buffer \<ge> buffer_size then
           (let count = processing_count st + 1;
                out = console st @ [Processing count]
            in case vosk_recognizer self of
                 None \<Rightarrow>
                   st\<lparr>audio_buffer := [], processing_count := count,
                      console := out @ [NoRecognizer]\<rparr>
               | Some _ \<Rightarrow>
                   (case construct K of
                      Inl e \<Rightarrow>
                        st\<lparr>audio_buffer := buffer, processing_count := count,
                           console := out @ [ProcessingError]\<rparr>
                    | Inr r \<Rightarrow>
                        (let (transcription, errors) = transcribe_window K r buffer;
                             (emitted, last') =
                               emit_transcription self (last_transcription st) transcription
                         in \<lparr>audio_buffer = [], last_transcription = last',
                             processing_count = count,
                             console = out @ errors @ emitted\<rparr>)))
         else st\<lparr>audio_buffer := buffer\<rparr>)"

definition working_process_audio_queue ::
  "'r kaldi \<Rightarrow> 'r WorkingRealTimeSystem \<Rightarrow> bytes list \<Rightarrow> processing" where
  "working_process_audio_queue K self chunks = foldl (process_chunk K self) processing_start chunks"

text \<open>The transcripts that reached the dispatcher: printed as heard, and spoken.\<close>

fun heard :: "event list \<Rightarrow> str list" where
  "heard [] = []"
| "heard (Heard language text # out) = text # heard out"
| "heard (Detected text # out) = text # heard out"
| "heard (_ # out) = heard out"

fun said :: "event list \<Rightarrow> str list" where
  "said [] = []"
| "said (Say text # out) = text # said out"
| "said (_ # out) = said out"

section \<open>simple\_working.py: SimpleWorkingSystem\<close>

text \<open>
  The fields \<open>vosk_recognizer\<close> and \<open>tts_engine\<close> of this class. Here the recognizer
  lives across reads, so the field holds its decode state.
\<close>

record 'r SimpleWorkingSystem =
  simple_vosk_recognizer :: "'r option"
  simple_tts_engine :: "(str \<Rightarrow> exn + unit) option"

text \<open>
  \<^verbatim>\<open>
    def speak(self, text):
        if self.tts_engine and text:
            try:
                self.tts_engine.say(text)
                self.tts_engine.runAndWait()
            except Exception as e:
                print(f"TTS error: {e}")
  \<close>
\<close>

definition speak :: "'r SimpleWorkingSystem \<Rightarrow> str \<Rightarrow> event list" where
  "speak self text =
     (case simple_tts_engine self of
        None \<Rightarrow> []
      | Some say \<Rightarrow>
          if text = [] then []
          else (case say text of Inr _ \<Rightarrow> [Say text] | Inl e \<Rightarrow> [Say text, TTSError]))"

text \<open>
  \<open>SimpleWorkingSystem.process_audio_chunk\<close>: the text of the chunk (a committed result
  or a partial one), the object with the recognizer's new state, and the message written.
  \<^verbatim>\<open>
    if not self.vosk_recognizer:
        return ""
    try:
        if self.vosk_recognizer.AcceptWaveform(audio_data):
            result = json.loads(self.vosk_recognizer.Result())
            return result.get('text', '').strip()
        else:
            result = json.loads(self.vosk_recognizer.PartialResult())
            return result.get('partial', '').strip()
    except Exception as e:
        print(f"Processing error: {e}")
        return ""
  \<close>
\<close>

definition simple_process_audio_chunk ::
  "'r kaldi \<Rightarrow> 'r SimpleWorkingSystem \<Rightarrow> bytes \<Rightarrow> str \<times> 'r SimpleWorkingSystem \<times> event list"
  where
  "simple_process_audio_chunk K self audio_data =
     (case simple_vosk_recognizer self of
        None \<Rightarrow> ([], self, [])
      | Some r \<Rightarrow>
          (case accept K r audio_data of
             (Inr (Result result), r') \<Rightarrow>
               (strip result, self\<lparr>simple_vosk_recognizer := Some r'\<rparr>, [])
           | (Inr (PartialResult result), r') \<Rightarrow>
               (strip result, self\<lparr>simple_vosk_recognizer := Some r'\<rparr>, [])
           | (Inl e, r') \<Rightarrow>
               ([], self\<lparr>simple_vosk_recognizer := Some r'\<rparr>, [ProcessingError])))"

text \<open>
  One turn of the loop of \<open>run\<close>, given what \<open>self.stream.read\<close> did (it returns a
  chunk or raises):
  \<^verbatim>\<open>
    try:
        audio_data = self.stream.read(self.chunk_size, exception_on_overflow=False)
        transcription = self.process_audio_chunk(audio_data)
        if transcription and len(transcription) > 2:
            print(f"Speech detected: {transcription}")
            response = f"I heard: {transcription}"
            self.speak(response)
            from vosk import KaldiRecognizer
            self.vosk_recognizer = KaldiRecognizer(self.vosk_model, self.sample_rate)
    except Exception as e:
        print(f"Audio processing error: {e}")
        time.sleep(0.1)
  \<close>
\<close>

definition run_turn ::
  "'r kaldi \<Rightarrow> 'r SimpleWorkingSystem \<Rightarrow> exn + bytes \<Rightarrow> 'r SimpleWorkingSystem \<times> event list"
  where
  "run_turn K self read =
     (case read of
        Inl e \<Rightarrow> (self, [ProcessingError])
      | Inr audio_data \<Rightarrow>
          (case simple_process_audio_chunk K self audio_data of
             (transcription, self1, errors) \<Rightarrow>
               if transcription \<noteq> [] \<and> length transcription > 2 then
                 (let out = errors @ Detected transcription
                              # speak self1 (response transcription)
                  in case construct K of
                       Inr r \<Rightarrow> (self1\<lparr>simple_vosk_recognizer := Some r\<rparr>, out)
                     | Inl e \<Rightarrow> (self1, out @ [ProcessingError]))
               else (self1, errors)))"

section \<open>approach\_4\_realtime\_fixed.py: the sliding window\<close>

text \<open>
  \<open>RealTimeLanguageSwitch.process_audio_queue\<close>, for one chunk taken from the queue, on
  the local \<open>buffer\<close> and the list of the arrays handed to the callback so far (none is
  handed over when no callback is set):
  \<^verbatim>\<open>
    buffer = []
    buffer_size = self.sample_rate * 2  # 2 seconds of audio
    while self.is_recording:
        try:
            audio_chunk = self.audio_queue.get(timeout=0.1)
            buffer.extend(audio_chunk)
            if len(buffer) >= buffer_size:
                audio_array = np.array(buffer[:buffer_size])
                buffer = buffer[buffer_size//2:]  # Keep overlap
                if self.callback:
                    self.callback(audio_array, self.current_language)
        except queue.Empty:
            continue
        except Exception as e:
            print(f"Audio processing error: {e}")
  \<close>
  An exception of the callback is caught after \<open>buffer\<close> was updated.
\<close>

definition window_step ::
  "nat \<Rightarrow> bool \<Rightarrow> 'a list \<times> 'a list list \<Rightarrow> 'a list \<Rightarrow> 'a list \<times> 'a list list" where
  "window_step rate callback st audio_chunk =
     (case st of (buffer0, windows) \<Rightarrow>
        (let buffer = buffer0 @ audio_chunk;
             buffer_size = rate * 2
         in if length buffer \<ge> buffer_size then
              (drop (buffer_size div 2) buffer,
               if callback then windows @ [take buffer_size buffer] else windows)
            else (buffer, windows)))"

definition process_audio_queue :: "nat \<Rightarrow> bool \<Rightarrow> 'a list list \<Rightarrow> 'a list \<times> 'a list list" where
  "process_audio_queue rate callback chunks = foldl (window_step rate callback) ([], []) chunks"

text \<open>The windows handed to the callback while the chunks are processed.\<close>

definition windows_of :: "nat \<Rightarrow> 'a list list \<Rightarrow> 'a list list" where
  "windows_of rate chunks = snd (process_audio_queue rate True chunks)"

section \<open>Notions used in the statements\<close>

text \<open>
  The invariant of the sliding window: every window handed over has \<open>2 * rate\<close> samples,
  the buffer starts with the second half of the last window, and each window starts with
  the second half of the one before.
\<close>

definition overlap_inv :: "nat \<Rightarrow> 'a list \<times> 'a list list \<Rightarrow> bool" where
  "overlap_inv rate st \<longleftrightarrow>
     (case st of (buffer, windows) \<Rightarrow>
        (\<forall>w \<in> set windows. length w = 2 * rate) \<and>
        (windows \<noteq> [] \<longrightarrow> rate \<le> length buffer \<and> take rate buffer = drop rate (last windows)) \<and>
        (\<forall>k. Suc k < length windows \<longrightarrow>
           take rate (windows ! Suc k) = drop rate (windows ! k)))"

text \<open>
  The same transcript fed to the filter twice in a row: the messages of both calls and
  the \<open>last_transcription\<close> after them.
\<close>

definition feed_twice :: "'r WorkingRealTimeSystem \<Rightarrow> str \<Rightarrow> str \<Rightarrow> event list \<times> str" where
  "feed_twice self last_t transcription =
     (let (out1, last1) = emit_transcription self last_t transcription;
          (out2, last2) = emit_transcription self last1 transcription
      in (out1 @ out2, last2))"

text \<open>
  What the recognizer answered to the sub-chunks of a window, in order (empty sub-chunks
  are not fed), and its decode state after them.
\<close>

fun replies :: "'r kaldi \<Rightarrow> 'r \<Rightarrow> bytes list \<Rightarrow> (exn + reply) list" where
  "replies K r [] = []"
| "replies K r (chunk_data # chunks) =
     (if length chunk_data > 0
      then fst (accept K r chunk_data) # replies K (snd (accept K r chunk_data)) chunks
      else replies K r chunks)"

fun decode_state :: "'r kaldi \<Rightarrow> 'r \<Rightarrow> bytes list \<Rightarrow> 'r" where
  "decode_state K r [] = r"
| "decode_state K r (chunk_data # chunks) =
     (if length chunk_data > 0
      then decode_state K (snd (accept K r chunk_data)) chunks
      else decode_state K r chunks)"

definition window_replies :: "'r kaldi \<Rightarrow> 'r \<Rightarrow> bytes \<Rightarrow> (exn + reply) list" where
  "window_replies K r window = replies K r (sub_chunks window)"

text \<open>The stripped text of the final \<open>FinalResult()\<close> call; empty when the call raises.\<close>

definition window_final :: "'r kaldi \<Rightarrow> 'r \<Rightarrow> bytes \<Rightarrow> str" where
  "window_final K r window =
     (case final K (decode_state K r (sub_chunks window)) of
        Inr result \<Rightarrow> strip result
      | Inl e \<Rightarrow> [])"

text \<open>
  The non-empty partial hypotheses among the answers, and the non-empty committed
  results (the answers of \<open>Result()\<close> after \<open>AcceptWaveform\<close> returned true), stripped.
\<close>

fun partials :: "(exn + reply) list \<Rightarrow> str list" where
  "partials [] = []"
| "partials (Inr (PartialResult result) # rs) =
     (if strip result \<noteq> [] then strip result # partials rs else partials rs)"
| "partials (_ # rs) = partials rs"

fun committed :: "(exn + reply) list \<Rightarrow> str list" where
  "committed [] = []"
| "committed (Inr (Result result) # rs) =
     (if strip result \<noteq> [] then strip result # committed rs else committed rs)"
| "committed (_ # rs) = committed rs"

text \<open>
  A recognizer for the examples: its decode state counts the chunks fed, its answer to
  chunk \<open>n\<close> is entry \<open>n\<close> of a script (an empty partial beyond the script), and its
  final result is a fixed text.
\<close>

definition script_kaldi :: "(exn + reply) list \<Rightarrow> str \<Rightarrow> nat kaldi" where
  "script_kaldi script final_text =
     \<lparr>construct = Inr 0,
      accept = (\<lambda>n data. (if n < length script then script ! n else Inr (PartialResult []), Suc n)),
      final = (\<lambda>n. Inr final_text)\<rparr>"

text \<open>
  The effect of one answer on the transcription kept by the loop over the sub-chunks.
\<close>

fun keep :: "str \<Rightarrow> exn + reply \<Rightarrow> str" where
  "keep transcription (Inr (Result result)) =
     (if strip result \<noteq> [] then strip result else transcription)"
| "keep transcription (Inr (PartialResult result)) =
     (if strip result \<noteq> [] \<and> length (strip result) > length transcription
      then strip result else transcription)"
| "keep transcription (Inl e) = transcription"

text \<open>Windows of two and of three full sub-chunks of silence.\<close>

definition two_chunks :: bytes where
  "two_chunks = replicate 4000 0 @ replicate 4000 0"

definition three_chunks :: bytes where
  "three_chunks = replicate 4000 0 @ replicate 4000 0 @ replicate 4000 0"

text \<open>
  What holds of the processing thread at every turn of its loop: every transcript
  printed is longer than two characters, no transcript is printed twice in a row, the
  last one printed is \<open>last_transcription\<close>, and every text spoken is the answer to a
  transcript longer than two characters.
\<close>

definition dispatch_inv :: "processing \<Rightarrow> bool" where
  "dispatch_inv st \<longleftrightarrow>
     (\<forall>t \<in> set (heard (console st)). 2 < length t) \<and>
     distinct_adj (heard (console st)) \<and>
     (heard (console st) \<noteq> [] \<longrightarrow> last (heard (console st)) = last_transcription st) \<and>
     (\<forall>x \<in> set (said (console st)). \<exists>t. x = response t \<and> 2 < length t)"

section \<open>Facts about the audio handler\<close>

lemma sint_int16_bounds: "- 32768 \<le> sint (w :: int16) \<and> sint w < 32768"
  using sint_ge [of w] sint_lt [of w] by (simp del: of_int_sint)

lemma normalize_bounds: "- 1 \<le> normalize_sample w \<and> normalize_sample w < 1"
proof -
  have "- 32768 \<le> real_of_int (sint w)" and "real_of_int (sint w) < 32768"
    using sint_int16_bounds [of w] by linarith+
  then show ?thesis
    by (simp del: of_int_sint add: normalize_sample_def)
qed

lemma trunc_to_zero_of_int: "trunc_to_zero (real_of_int k) = k"
  by (simp add: trunc_to_zero_def)

lemma astype_int16_normalize: "astype_int16 (normalize_sample w * 32768) = w"
proof -
  have "normalize_sample w * 32768 = real_of_int (sint w)"
    by (simp del: of_int_sint add: normalize_sample_def)
  then have "trunc_to_zero (normalize_sample w * 32768) = sint w"
    by (simp only: trunc_to_zero_of_int)
  then show ?thesis
    by (simp add: astype_int16_def)
qed

lemma int16_of_le_bytes: "int16_of_le (lo_byte w) (hi_byte w) = w"
  unfolding int16_of_le_def lo_byte_def hi_byte_def
  by (rule bit_word_eqI) (auto simp add: bit_simps)

lemma lo_byte_int16_of_le: "lo_byte (int16_of_le lo hi) = lo"
  unfolding int16_of_le_def lo_byte_def
  by (rule bit_word_eqI) (auto simp add: bit_simps dest: bit_imp_le_length)

lemma hi_byte_int16_of_le: "hi_byte (int16_of_le lo hi) = hi"
  unfolding int16_of_le_def hi_byte_def
  by (rule bit_word_eqI) (auto simp add: bit_simps dest: bit_imp_le_length)

lemma length_tobytes: "length (tobytes ws) = 2 * length ws"
  by (induction ws) simp_all

lemma int16_view_tobytes: "int16_view (tobytes ws) = ws"
  by (induction ws) (simp_all add: int16_of_le_bytes)

lemma frombuffer_tobytes: "frombuffer_int16 (tobytes ws) = Inr ws"
  by (simp add: frombuffer_int16_def length_tobytes int16_view_tobytes)

lemma tobytes_int16_view: "even (length bs) \<Longrightarrow> tobytes (int16_view bs) = bs"
  by (induction bs rule: int16_view.induct)
     (simp_all add: lo_byte_int16_of_le hi_byte_int16_of_le)

lemma length_int16_view: "length (int16_view bs) = length bs div 2"
  by (induction bs rule: int16_view.induct) simp_all

lemma float32_normalize: "float32 (normalize_sample w)"
proof -
  have "\<bar>sint w\<bar> < 2 ^ 24"
    using sint_int16_bounds [of w] by (simp del: of_int_sint add: abs_less_iff)
  moreover have "(2::real) powr - 15 = 1 / 32768"
    by (simp add: powr_minus_divide)
  then have "normalize_sample w = real_of_int (sint w) * 2 powr real_of_int (- 15)"
    by (simp del: of_int_sint add: normalize_sample_def)
  ultimately show ?thesis
    unfolding float32_def by (intro exI [of _ "sint w"] exI [of _ "- 15"]) simp
qed

lemma float32_sample: "float32 (real_of_int (sint (w :: int16)))"
proof -
  have "\<bar>sint w\<bar> < 2 ^ 24"
    using sint_int16_bounds [of w] by (simp del: of_int_sint add: abs_less_iff)
  then show ?thesis
    unfolding float32_def by (intro exI [of _ "sint w"] exI [of _ 0]) simp
qed

lemma normalize_times: "normalize_sample w * 32768 = real_of_int (sint w)"
  by (simp del: of_int_sint add: normalize_sample_def)

lemma bytes_to_tensor_float32:
  "x \<in> set (bytes_to_tensor bs) \<Longrightarrow> float32 x \<and> float32 (x * 32768)"
  by (auto simp del: of_int_sint
      simp add: bytes_to_tensor_def float32_normalize float32_sample normalize_times
      split: sum.splits)

lemma int16_view_nth:
  "i < length bs div 2 \<Longrightarrow> int16_view bs ! i = int16_of_le (bs ! (2 * i)) (bs ! (2 * i + 1))"
proof (induction bs arbitrary: i rule: int16_view.induct)
  case (1 lo hi bs)
  then show ?case by (cases i) simp_all
qed simp_all

text \<open>
  C9. For every byte string, each sample of the tensor produced by \<open>bytes_to_tensor\<close>
  lies in the interval from -1 to 1; for a byte string of 16-bit little-endian samples
  (an even number of bytes) the tensor has one entry per sample, and entry \<open>i\<close> is the
  signed value of bytes \<open>2i\<close> and \<open>2i+1\<close> divided by 32768.
\<close>

theorem bytes_to_tensor_normalized:
  "(\<forall>x \<in> set (bytes_to_tensor audio_bytes). - 1 \<le> x \<and> x \<le> 1) \<and>
   (even (length audio_bytes) \<longrightarrow>
      length (bytes_to_tensor audio_bytes) = length audio_bytes div 2 \<and>
      (\<forall>i < length audio_bytes div 2.
         bytes_to_tensor audio_bytes ! i =
           real_of_int (sint (int16_of_le (audio_bytes ! (2 * i)) (audio_bytes ! (2 * i + 1))))
             / 32768))"
proof (intro conjI impI ballI allI)
  fix x
  assume "x \<in> set (bytes_to_tensor audio_bytes)"
  then obtain w where "x = normalize_sample w"
    by (auto simp add: bytes_to_tensor_def split: sum.splits)
  then show "- 1 \<le> x" and "x \<le> 1"
    using normalize_bounds [of w] by simp_all
next
  assume "even (length audio_bytes)"
  then show "length (bytes_to_tensor audio_bytes) = length audio_bytes div 2"
    by (simp add: bytes_to_tensor_def frombuffer_int16_def length_int16_view)
next
  fix i
  assume even: "even (length audio_bytes)" and i: "i < length audio_bytes div 2"
  from even have "bytes_to_tensor audio_bytes = map normalize_sample (int16_view audio_bytes)"
    by (simp add: bytes_to_tensor_def frombuffer_int16_def)
  with i show "bytes_to_tensor audio_bytes ! i =
      real_of_int (sint (int16_of_le (audio_bytes ! (2 * i)) (audio_bytes ! (2 * i + 1)))) / 32768"
    by (simp del: of_int_sint add: length_int16_view int16_view_nth normalize_sample_def)
qed

theorem bytes_to_tensor_normalized_witness:
  "even (length [0, 128, 255, 127 :: byte]) \<and>
   length (bytes_to_tensor [0, 128, 255, 127]) = 2 \<and>
   bytes_to_tensor [0, 128, 255, 127] ! 0 = - 1 \<and>
   bytes_to_tensor [0, 128, 255, 127] ! 1 = 32767 / 32768 \<and>
   - 1 \<le> bytes_to_tensor [0, 128, 255, 127] ! 1 \<and>
   bytes_to_tensor [0, 128, 255, 127] ! 1 \<le> 1"
proof -
  have "bytes_to_tensor [0, 128, 255, 127] = [- 1, 32767 / 32768]"
    by (simp add: bytes_to_tensor_def frombuffer_int16_def normalize_sample_def int16_of_le_def)
  then show ?thesis
    using bytes_to_tensor_normalized [of "[0, 128, 255, 127]"]
    by simp
qed

text \<open>
  C10. For every sequence of signed 16-bit samples, turning its raw bytes into a
  normalized tensor with \<open>bytes_to_tensor\<close> and denormalizing (times 32768, cast to
  \<open>int16\<close>) gives back the samples, and so their bytes.
\<close>

theorem normalization_round_trip:
  "denormalize (bytes_to_tensor (tobytes samples)) = samples \<and>
   tobytes (denormalize (bytes_to_tensor (tobytes samples))) = tobytes samples"
proof -
  have "denormalize (map normalize_sample samples) = samples"
    by (induction samples) (simp_all add: denormalize_def astype_int16_normalize)
  then show ?thesis
    by (simp add: bytes_to_tensor_def frombuffer_tobytes)
qed

section \<open>Facts about language detection and the switch\<close>

lemma detect_language_returns:
  "\<exists>language confidence. detect_language d t = Inr (language, confidence)"
  by (cases "model d"; cases "the (model d) [t]")
     (auto simp add: detect_language_def try_except_def)

lemma detect_language_failure:
  "model d = None \<or> (\<exists>m e. model d = Some m \<and> m [t] = Inl e) \<Longrightarrow>
   detect_language d t = Inr (py ''en'', 0)"
  by (auto simp add: detect_language_def try_except_def)

lemma process_audio_chunk_low:
  assumes "detect_language (language_detector s) (bytes_to_tensor audio_bytes) = Inr (l, c)"
    and "\<not> is_confidence_high (language_detector s) c"
  shows "process_audio_chunk K s audio_bytes = Inr (None, s)"
  using assms by (simp add: process_audio_chunk_def Let_def)

text \<open>
  C1 (as the code has it). For every audio window whose detected-language confidence is
  strictly below the configured threshold, \<open>process_audio_chunk\<close> returns \<open>None\<close> and
  leaves the whole system unchanged: the active language is kept, and the window is not
  transcribed (the recognizer is not called, its state is untouched).
\<close>

theorem low_confidence_skips_window:
  assumes "detect_language (language_detector s) (bytes_to_tensor audio_bytes) = Inr (l, c)"
    and "c < confidence_threshold (language_detector s)"
  shows "process_audio_chunk K s audio_bytes = Inr (None, s)"
  using assms by (intro process_audio_chunk_low [where l = l and c = c])
    (simp_all add: is_confidence_high_def)

lemma bytes_to_tensor_example: "bytes_to_tensor [0, 1] = [1 / 128]"
  by (simp add: bytes_to_tensor_def frombuffer_int16_def normalize_sample_def int16_of_le_def)

lemma transcribe_hello:
  "transcribe_audio hello_kaldi \<lparr>recognizer = Some ()\<rparr> audio_bytes language
     = (py ''hello'', \<lparr>recognizer = Some ()\<rparr>)"
  by (simp add: transcribe_audio_def hello_kaldi_def strip_def isspace_def)

theorem low_confidence_skips_window_witness:
  "detect_language (language_detector unsure_system) (bytes_to_tensor [0, 1])
     = Inr (py ''hi'', 0.5) \<and>
   (0.5 :: real) < confidence_threshold (language_detector unsure_system) \<and>
   process_audio_chunk hello_kaldi unsure_system [0, 1] = Inr (None, unsure_system)"
proof -
  have d: "detect_language (language_detector unsure_system) (bytes_to_tensor [0, 1])
      = Inr (py ''hi'', 0.5)"
    by (simp add: unsure_system_def example_system_def detect_language_def try_except_def
        fixed_model_def)
  have c: "(0.5 :: real) < confidence_threshold (language_detector unsure_system)"
    by (simp add: unsure_system_def example_system_def)
  show ?thesis
    using d c low_confidence_skips_window [OF d c, of hello_kaldi] by simp
qed

text \<open>
  The claim as the spec words it fails: with the threshold at 0.8 and a detection of
  \<open>hi\<close> at confidence 0.5, the window is not transcribed (the call returns \<open>None\<close>),
  although the recognizer, asked under the active language, hears \<open>hello\<close> in it.
\<close>

theorem low_confidence_counterexample:
  "(0.5 :: real) < confidence_threshold (language_detector unsure_system) \<and>
   detect_language (language_detector unsure_system) (bytes_to_tensor [0, 1])
     = Inr (py ''hi'', 0.5) \<and>
   process_audio_chunk hello_kaldi unsure_system [0, 1] = Inr (None, unsure_system) \<and>
   fst (transcribe_audio hello_kaldi (speech_recognizer unsure_system) [0, 1]
          (current_language unsure_system)) = py ''hello''"
  by (simp add: unsure_system_def example_system_def detect_language_def try_except_def
      fixed_model_def process_audio_chunk_def bytes_to_tensor_example is_confidence_high_def
      transcribe_hello)

text \<open>
  C2. When a window is processed and the detector reports a candidate language \<open>l\<close> with
  confidence \<open>c\<close>, the active language is switched if and only if \<open>c\<close> is at least the
  threshold and \<open>l\<close> differs from the active language; a switch makes \<open>l\<close> the active
  language. The comparison is inclusive, so a confidence equal to the threshold switches.
\<close>

theorem switch_iff_confident_and_different:
  assumes "bytes_to_tensor audio_bytes \<noteq> []"
    and "detect_language (language_detector s) (bytes_to_tensor audio_bytes) = Inr (l, c)"
  shows "\<exists>r s'. process_audio_chunk K s audio_bytes = Inr (r, s') \<and>
           ((current_language s' \<noteq> current_language s) =
              (c \<ge> confidence_threshold (language_detector s) \<and> l \<noteq> current_language s)) \<and>
           current_language s' =
              (if c \<ge> confidence_threshold (language_detector s) \<and> l \<noteq> current_language s
               then l else current_language s)"
  using assms
  by (auto simp add: process_audio_chunk_def Let_def is_confidence_high_def split: prod.splits)

theorem switch_iff_confident_and_different_witness:
  "bytes_to_tensor [0, 1] \<noteq> [] \<and>
   detect_language (language_detector borderline_system) (bytes_to_tensor [0, 1])
     = Inr (py ''hi'', 0.8) \<and>
   confidence_threshold (language_detector borderline_system) = 0.8 \<and>
   current_language borderline_system = py ''en'' \<and>
   (\<exists>r s'. process_audio_chunk hello_kaldi borderline_system [0, 1] = Inr (r, s') \<and>
      current_language s' = py ''hi'')"
proof -
  have t: "bytes_to_tensor [0, 1] \<noteq> []"
    by (simp add: bytes_to_tensor_example)
  have d: "detect_language (language_detector borderline_system) (bytes_to_tensor [0, 1])
      = Inr (py ''hi'', 0.8)"
    by (simp add: borderline_system_def example_system_def detect_language_def try_except_def
        fixed_model_def)
  have c: "confidence_threshold (language_detector borderline_system) = 0.8"
    and l: "current_language borderline_system = py ''en''"
    by (simp_all add: borderline_system_def example_system_def)
  show ?thesis
    using t d c l switch_iff_confident_and_different [OF t d, of hello_kaldi]
    by auto
qed

text \<open>
  C7 (as the code has it). When the language model failed to load or the
  language-identification collaborator raises, \<open>detect_language\<close> does not raise: it
  reports \<open>en\<close> with confidence 0. With a positive threshold the window is then skipped:
  \<open>process_audio_chunk\<close> returns \<open>None\<close> and leaves the system, and so the active
  language, unchanged.
\<close>

theorem detection_failure_skips_window:
  assumes "model (language_detector s) = None \<or>
           (\<exists>m e. model (language_detector s) = Some m \<and> m [bytes_to_tensor audio_bytes] = Inl e)"
    and "0 < confidence_threshold (language_detector s)"
  shows "detect_language (language_detector s) (bytes_to_tensor audio_bytes)
           = Inr (py ''en'', 0) \<and>
         process_audio_chunk K s audio_bytes = Inr (None, s)"
proof -
  have d: "detect_language (language_detector s) (bytes_to_tensor audio_bytes)
      = Inr (py ''en'', 0)"
    using assms(1) by (rule detect_language_failure)
  moreover have "process_audio_chunk K s audio_bytes = Inr (None, s)"
    using d assms(2) by (intro process_audio_chunk_low [OF d]) (simp add: is_confidence_high_def)
  ultimately show ?thesis by simp
qed

theorem detection_failure_skips_window_witness:
  "model (language_detector broken_system) = Some failing_model \<and>
   failing_model [bytes_to_tensor [0, 1]] = Inl Exception \<and>
   0 < confidence_threshold (language_detector broken_system) \<and>
   detect_language (language_detector broken_system) (bytes_to_tensor [0, 1])
     = Inr (py ''en'', 0) \<and>
   process_audio_chunk hello_kaldi broken_system [0, 1] = Inr (None, broken_system)"
proof -
  have m: "model (language_detector broken_system) = Some failing_model"
    and f: "failing_model [bytes_to_tensor [0, 1]] = Inl Exception"
    and c: "0 < confidence_threshold (language_detector broken_system)"
    by (simp_all add: broken_system_def example_system_def failing_model_def)
  from m f have h: "model (language_detector broken_system) = None \<or>
      (\<exists>m e. model (language_detector broken_system) = Some m \<and>
         m [bytes_to_tensor [0, 1]] = Inl e)"
    by blast
  show ?thesis
    using m f c detection_failure_skips_window [OF h c, of hello_kaldi] by simp
qed

text \<open>
  The claim as the spec words it fails: when the collaborator raises while \<open>es\<close> is the
  active language, the window is not processed under \<open>es\<close>; it is not processed at all
  (the call returns \<open>None\<close>), although the recognizer hears \<open>hello\<close> in it.
\<close>

theorem detection_failure_counterexample:
  "failing_model [bytes_to_tensor [0, 1]] = Inl Exception \<and>
   current_language broken_system = py ''es'' \<and>
   process_audio_chunk hello_kaldi broken_system [0, 1] = Inr (None, broken_system) \<and>
   fst (transcribe_audio hello_kaldi (speech_recognizer broken_system) [0, 1]
          (current_language broken_system)) = py ''hello''"
  by (simp add: broken_system_def example_system_def detect_language_def try_except_def
      failing_model_def process_audio_chunk_def bytes_to_tensor_example is_confidence_high_def
      transcribe_hello)

section \<open>Facts about the frame queue\<close>

lemma run_threads_keeps_all:
  "is_recording s \<Longrightarrow> maxsize (audio_queue s) = 0 \<Longrightarrow>
   \<exists>got s'. run_threads s ops = Some (got, s') \<and>
     got @ queue (audio_queue s') = queue (audio_queue s) @ captured ops"
proof (induction s ops rule: run_threads.induct)
  case (1 self)
  then show ?case by simp
next
  case (2 self in_data ops)
  let ?s = "self\<lparr>audio_queue := (audio_queue self)\<lparr>queue := queue (audio_queue self) @ [in_data]\<rparr>\<rparr>"
  from "2.prems" have cb: "audio_callback self in_data = Some ?s"
    by (simp add: audio_callback_def put_def full_def)
  from "2.prems" have "is_recording ?s" and "maxsize (audio_queue ?s) = 0"
    by simp_all
  with "2.IH" [OF cb] cb show ?case by simp
next
  case (3 self ops)
  show ?case
  proof (cases "queue (audio_queue self)")
    case Nil
    then have g: "get (audio_queue self) = None"
      by (simp add: get_def)
    with "3.IH"(1) [OF g] "3.prems" Nil show ?thesis by simp
  next
    case (Cons item rest)
    let ?q = "(audio_queue self)\<lparr>queue := rest\<rparr>"
    from Cons have g: "get (audio_queue self) = Some (item, ?q)"
      by (simp add: get_def)
    from "3.prems" have "is_recording (self\<lparr>audio_queue := ?q\<rparr>)"
      and "maxsize (audio_queue (self\<lparr>audio_queue := ?q\<rparr>)) = 0"
      by simp_all
    from "3.IH"(2) [OF g refl this] obtain got s'
      where "run_threads (self\<lparr>audio_queue := ?q\<rparr>) ops = Some (got, s')"
        and "got @ queue (audio_queue s') = rest @ captured ops"
      by auto
    with g Cons show ?thesis by simp
  qed
qed

lemma captured_map_Capture: "captured (map Capture frames) = frames"
  by (induction frames) simp_all

lemma run_threads_only_captures:
  "run_threads s (map Capture frames) = Some (got, s') \<Longrightarrow> got = []"
  by (induction frames arbitrary: s) (auto split: option.splits)

text \<open>
  C3 (as the code has it). The frame queue is \<open>queue.Queue()\<close> with no capacity: for
  every interleaving of frames pushed by the capture callback and of pops by the
  processing thread, no push blocks the producer, and nothing is dropped: the frames
  popped so far, followed by the frames still queued, are exactly the frames captured, in
  order.
\<close>

theorem frame_queue_unbounded:
  "\<exists>got s'. run_threads (recording_system vosk tts) ops = Some (got, s') \<and>
     got @ queue (audio_queue s') = captured ops"
  using run_threads_keeps_all [of "recording_system vosk tts" ops]
  by (simp add: recording_system_def new_Queue_def)

text \<open>
  The claim as the spec words it fails: the queue has no capacity (\<open>maxsize\<close> is 0,
  unbounded); after three pushes and no pop it holds the three frames, the oldest still
  first, and no bound \<open>C\<close> limits its length.
\<close>

theorem frame_queue_counterexample:
  "maxsize (audio_queue (recording_system None None :: unit WorkingRealTimeSystem)) = 0 \<and>
   map_option (\<lambda>(got, s'). (got, queue (audio_queue s')))
     (run_threads (recording_system None None :: unit WorkingRealTimeSystem)
        [Capture [1], Capture [2], Capture [3]])
     = Some ([], [[1], [2], [3]]) \<and>
   \<not> (\<exists>C. \<forall>frames got s'.
          run_threads (recording_system None None :: unit WorkingRealTimeSystem)
            (map Capture frames) = Some (got, s')
          \<longrightarrow> length (queue (audio_queue s')) \<le> C)"
proof (intro conjI notI)
  show "maxsize (audio_queue (recording_system None None :: unit WorkingRealTimeSystem)) = 0"
    by (simp add: recording_system_def new_Queue_def)
  show "map_option (\<lambda>(got, s'). (got, queue (audio_queue s')))
     (run_threads (recording_system None None :: unit WorkingRealTimeSystem)
        [Capture [1], Capture [2], Capture [3]])
     = Some ([], [[1], [2], [3]])"
    by (simp add: recording_system_def new_Queue_def audio_callback_def put_def full_def)
next
  let ?s = "recording_system None None :: unit WorkingRealTimeSystem"
  assume "\<exists>C. \<forall>frames got s'. run_threads ?s (map Capture frames) = Some (got, s')
      \<longrightarrow> length (queue (audio_queue s')) \<le> C"
  then obtain C where bound: "\<And>frames got s'.
      run_threads ?s (map Capture frames) = Some (got, s') \<Longrightarrow> length (queue (audio_queue s')) \<le> C"
    by blast
  have init: "is_recording ?s" "maxsize (audio_queue ?s) = 0" "queue (audio_queue ?s) = []"
    by (simp_all add: recording_system_def new_Queue_def)
  define frames :: "bytes list" where "frames = replicate (Suc C) []"
  from run_threads_keeps_all [OF init(1,2), of "map Capture frames"]
  obtain got s' where run: "run_threads ?s (map Capture frames) = Some (got, s')"
    and all: "got @ queue (audio_queue s') = queue (audio_queue ?s) @ captured (map Capture frames)"
    by blast
  from run have "got = []"
    by (rule run_threads_only_captures)
  with all init(3) have "queue (audio_queue s') = frames"
    by (simp only: captured_map_Capture append_Nil)
  then have "length (queue (audio_queue s')) = Suc C"
    by (simp add: frames_def)
  with bound [OF run] show False by simp
qed

section \<open>Facts about the sliding window\<close>

lemma half_overlap: "drop rate (take (rate * 2) b) = take rate (drop rate b)"
  by (simp add: drop_take)

lemma overlap_inv_step:
  assumes "overlap_inv rate st"
  shows "overlap_inv rate (window_step rate True st audio_chunk)"
proof -
  obtain buffer windows where st: "st = (buffer, windows)"
    by (cases st)
  define b where "b = buffer @ audio_chunk"
  from assms st have len: "\<forall>w \<in> set windows. length w = 2 * rate"
    and seed: "windows \<noteq> [] \<Longrightarrow> rate \<le> length buffer \<and> take rate buffer = drop rate (last windows)"
    and pairs: "\<And>k. Suc k < length windows \<Longrightarrow>
       take rate (windows ! Suc k) = drop rate (windows ! k)"
    by (auto simp add: overlap_inv_def)
  have seed_b: "rate \<le> length b \<and> take rate b = drop rate (last windows)" if "windows \<noteq> []"
    using seed [OF that] by (simp add: b_def)
  show ?thesis
  proof (cases "rate * 2 \<le> length b")
    case False
    then have step: "window_step rate True st audio_chunk = (b, windows)"
      by (simp add: window_step_def st Let_def b_def)
    show ?thesis
      unfolding step overlap_inv_def using len pairs seed_b by auto
  next
    case True
    define w where "w = take (rate * 2) b"
    from True have step:
      "window_step rate True st audio_chunk = (drop rate b, windows @ [w])"
      by (simp add: window_step_def st Let_def b_def w_def)
    from True have lw: "length w = 2 * rate"
      by (simp add: w_def)
    have tw: "take rate w = take rate b"
      by (simp add: w_def)
    have a: "\<forall>w' \<in> set (windows @ [w]). length w' = 2 * rate"
      using len lw by auto
    have b: "rate \<le> length (drop rate b) \<and>
        take rate (drop rate b) = drop rate (last (windows @ [w]))"
      using True by (simp add: w_def half_overlap)
    have c: "take rate ((windows @ [w]) ! Suc k) = drop rate ((windows @ [w]) ! k)"
      if k: "Suc k < length (windows @ [w])" for k
    proof (cases "Suc k < length windows")
      case True
      then show ?thesis
        using pairs [of k] by (simp add: nth_append)
    next
      case False
      with k have k': "Suc k = length windows"
        by simp
      then have ne: "windows \<noteq> []"
        by auto
      from k' [symmetric] ne have "windows ! k = last windows"
        by (simp add: last_conv_nth)
      with seed_b [OF ne] tw show ?thesis
        using k' by (simp add: nth_append)
    qed
    show ?thesis
      unfolding step overlap_inv_def using a b c by simp
  qed
qed

lemma overlap_inv_queue: "overlap_inv rate (process_audio_queue rate True chunks)"
proof (induction chunks rule: rev_induct)
  case Nil
  then show ?case by (simp add: process_audio_queue_def overlap_inv_def)
next
  case (snoc audio_chunk chunks)
  then show ?case
    by (simp add: process_audio_queue_def overlap_inv_step)
qed

text \<open>
  C6. The windower of approach\_4 cuts windows of \<open>W = 2 * sample_rate\<close> samples and keeps
  the half \<open>W div 2 = sample_rate\<close> (overlap 50 percent). For any sequence of chunks fed
  to it, every window handed to the callback after the first begins with exactly the last
  \<open>sample_rate\<close> samples of the window handed over before it.
\<close>

theorem consecutive_windows_overlap:
  assumes "Suc k < length (windows_of rate chunks)"
  shows "length (windows_of rate chunks ! k) = 2 * rate \<and>
         length (windows_of rate chunks ! Suc k) = 2 * rate \<and>
         take rate (windows_of rate chunks ! Suc k) = drop rate (windows_of rate chunks ! k)"
proof -
  obtain buffer windows where p: "process_audio_queue rate True chunks = (buffer, windows)"
    by (cases "process_audio_queue rate True chunks")
  then have w: "windows_of rate chunks = windows"
    by (simp add: windows_of_def)
  from overlap_inv_queue [of rate chunks] p
  have "\<forall>w \<in> set windows. length w = 2 * rate"
    and "\<And>k. Suc k < length windows \<Longrightarrow> take rate (windows ! Suc k) = drop rate (windows ! k)"
    by (auto simp add: overlap_inv_def)
  with assms show ?thesis
    unfolding w by simp
qed

theorem consecutive_windows_overlap_witness:
  "windows_of 2 [[1, 2, 3], [4, 5, 6], [7, 8 :: int]] = [[1, 2, 3, 4], [3, 4, 5, 6]] \<and>
   Suc 0 < length (windows_of 2 [[1, 2, 3], [4, 5, 6], [7, 8 :: int]]) \<and>
   take 2 (windows_of 2 [[1, 2, 3], [4, 5, 6], [7, 8 :: int]] ! Suc 0)
     = drop 2 (windows_of 2 [[1, 2, 3], [4, 5, 6], [7, 8 :: int]] ! 0)"
proof -
  have v: "windows_of 2 [[1, 2, 3], [4, 5, 6], [7, 8 :: int]] = [[1, 2, 3, 4], [3, 4, 5, 6]]"
    by (simp add: windows_of_def process_audio_queue_def window_step_def)
  then have h: "Suc 0 < length (windows_of 2 [[1, 2, 3], [4, 5, 6], [7, 8 :: int]])"
    by simp
  show ?thesis
    using v h consecutive_windows_overlap [OF h] by simp
qed

section \<open>Facts about the transcript filter\<close>

lemma strip_nonspace: "\<not> isspace c \<Longrightarrow> strip (c # s) \<noteq> []"
  by (auto simp add: strip_def dropWhile_eq_Nil_conv)

lemma strip_response: "strip (response t) \<noteq> []"
  by (simp add: response_def strip_nonspace isspace_def)

lemma heard_append: "heard (xs @ ys) = heard xs @ heard ys"
  by (induction xs rule: heard.induct) simp_all

lemma said_append: "said (xs @ ys) = said xs @ said ys"
  by (induction xs rule: said.induct) simp_all

lemma heard_speak_text: "heard (speak_text self text) = []"
  by (simp add: speak_text_def split: option.splits sum.splits)

lemma said_speak_text:
  "said (speak_text self (response t)) =
     (case tts_engine self of None \<Rightarrow> [] | Some say \<Rightarrow> [response t])"
  using strip_response [of t]
  by (simp add: speak_text_def split: option.splits sum.splits)

lemma heard_speak: "heard (speak self text) = []"
  by (simp add: speak_def split: option.splits sum.splits)

lemma emit_transcription_new:
  "2 < length t \<Longrightarrow> t \<noteq> last_t \<Longrightarrow>
   emit_transcription self last_t t
     = (Heard (language_tag self) t # speak_text self (response t), t)"
  by (auto simp add: emit_transcription_def)

lemma emit_transcription_same: "emit_transcription self t t = ([NoSpeech], t)"
  by (simp add: emit_transcription_def)

lemma emit_transcription_short:
  "length t \<le> 2 \<Longrightarrow> emit_transcription self last_t t = ([NoSpeech], last_t)"
  by (simp add: emit_transcription_def)

lemma emit_transcription_cases:
  "emit_transcription self last_t t
     = (Heard (language_tag self) t # speak_text self (response t), t)
   \<or> emit_transcription self last_t t = ([NoSpeech], last_t)"
  by (simp add: emit_transcription_def)


section \<open>Facts about the transcription of a window\<close>

lemma sub_chunks_Nil: "sub_chunks [] = []"
  by (simp add: sub_chunks_def)

lemma sub_chunks_append:
  assumes "length a = 4000"
  shows "sub_chunks (a @ b) = a # sub_chunks b"
proof -
  have n: "(length (a @ b) + 3999) div 4000 = Suc ((length b + 3999) div 4000)"
    using assms by simp
  have "sub_chunks (a @ b)
      = take 4000 (drop (4000 * 0) (a @ b))
        # map (\<lambda>k. take 4000 (drop (4000 * k) (a @ b))) (map Suc [0 ..< (length b + 3999) div 4000])"
    unfolding sub_chunks_def n by (simp only: upt_conv_Cons zero_less_Suc list.map map_Suc_upt)
  also have "\<dots> = a # map (\<lambda>k. take 4000 (drop (4000 * k) b)) [0 ..< (length b + 3999) div 4000]"
    using assms by (simp add: comp_def)
  finally show ?thesis
    by (simp add: sub_chunks_def)
qed

lemma sub_chunks_two: "sub_chunks two_chunks = [replicate 4000 0, replicate 4000 0]"
  using sub_chunks_append [of "replicate 4000 0" "replicate 4000 0"]
    sub_chunks_append [of "replicate 4000 0" "[]"]
  by (simp add: two_chunks_def sub_chunks_Nil)

lemma sub_chunks_three:
  "sub_chunks three_chunks = [replicate 4000 0, replicate 4000 0, replicate 4000 0]"
  using sub_chunks_append [of "replicate 4000 0" "replicate 4000 0 @ replicate 4000 0"]
    sub_chunks_append [of "replicate 4000 0" "replicate 4000 0"]
    sub_chunks_append [of "replicate 4000 0" "[]"]
  by (simp add: three_chunks_def sub_chunks_Nil)

lemma feed_chunk_keep:
  "\<exists>out'. feed_chunk K (r, t, out) chunk_data =
     (if length chunk_data > 0
      then (snd (accept K r chunk_data), keep t (fst (accept K r chunk_data)), out')
      else (r, t, out')) \<and> heard out' = heard out \<and> said out' = said out"
  by (cases "accept K r chunk_data")
     (auto simp add: feed_chunk_def Let_def heard_append said_append
        split: sum.splits reply.splits)

lemma feed_chunks_keep:
  "\<exists>out'. foldl (feed_chunk K) (r, t, out) chunks =
     (decode_state K r chunks, foldl keep t (replies K r chunks), out') \<and>
     heard out' = heard out \<and> said out' = said out"
proof (induction chunks arbitrary: r t out)
  case Nil
  then show ?case by simp
next
  case (Cons chunk_data chunks)
  obtain out1 where step: "feed_chunk K (r, t, out) chunk_data =
     (if length chunk_data > 0
      then (snd (accept K r chunk_data), keep t (fst (accept K r chunk_data)), out1)
      else (r, t, out1))"
    and same: "heard out1 = heard out" "said out1 = said out"
    using feed_chunk_keep [of K r t out chunk_data] by blast
  show ?case
  proof (cases "length chunk_data > 0")
    case True
    with step same
      Cons.IH [of "snd (accept K r chunk_data)" "keep t (fst (accept K r chunk_data))" out1]
    show ?thesis by simp
  next
    case False
    with step same Cons.IH [of r t out1] show ?thesis by simp
  qed
qed

lemma transcribe_window_silent:
  "heard (snd (transcribe_window K r w)) = [] \<and> said (snd (transcribe_window K r w)) = []"
proof -
  obtain out' where "foldl (feed_chunk K) (r, [], []) (sub_chunks w) =
      (decode_state K r (sub_chunks w), foldl keep [] (replies K r (sub_chunks w)), out')"
    and "heard out' = []" "said out' = []"
    using feed_chunks_keep [of K r "[]" "[]" "sub_chunks w"] by auto
  then show ?thesis
    by (simp add: transcribe_window_def final_result_def Let_def heard_append said_append
        split: sum.splits)
qed

lemma transcribe_window_keep:
  "fst (transcribe_window K r w) =
     (if window_final K r w \<noteq> [] then window_final K r w
      else foldl keep [] (window_replies K r w))"
proof -
  obtain out' where "foldl (feed_chunk K) (r, [], []) (sub_chunks w) =
      (decode_state K r (sub_chunks w), foldl keep [] (replies K r (sub_chunks w)), out')"
    using feed_chunks_keep [of K r "[]" "[]" "sub_chunks w"] by blast
  then show ?thesis
    by (simp add: transcribe_window_def final_result_def window_final_def window_replies_def
        Let_def split: sum.splits)
qed

lemma keep_longest_partial:
  assumes "committed rs = []"
  shows "(foldl keep t rs = t \<or>
            foldl keep t rs \<in> set (partials rs) \<and> length t < length (foldl keep t rs)) \<and>
         (\<forall>p \<in> set (partials rs). length p \<le> length (foldl keep t rs))"
  using assms
proof (induction rs arbitrary: t)
  case Nil
  then show ?case by simp
next
  case (Cons h rs)
  from Cons.prems have rest: "committed rs = []"
    by (cases "h # rs" rule: committed.cases) (auto split: if_splits)
  note IH = Cons.IH [OF rest, of "keep t h"]
  show ?case
  proof (cases h)
    case (Inl e)
    with IH show ?thesis by simp
  next
    case (Inr a)
    show ?thesis
    proof (cases a)
      case (Result x)
      with Inr Cons.prems have "strip x = []"
        by (simp split: if_splits)
      with Inr Result IH show ?thesis by simp
    next
      case (PartialResult x)
      with Inr IH show ?thesis
        by (cases "strip x \<noteq> [] \<and> length t < length (strip x)") (auto split: if_splits)
    qed
  qed
qed

lemma keep_after_committed:
  "strip c \<noteq> [] \<Longrightarrow> foldl keep t (pre @ Inr (Result c) # post) = foldl keep (strip c) post"
  by simp

lemma script_replies_two:
  "window_replies (script_kaldi [a, b] f) 0 two_chunks = [a, b]"
  by (simp add: window_replies_def sub_chunks_two script_kaldi_def)

lemma script_replies_three:
  "window_replies (script_kaldi [a, b, c] f) 0 three_chunks = [a, b, c]"
  by (simp add: window_replies_def sub_chunks_three script_kaldi_def)

lemma script_final: "window_final (script_kaldi script f) r w = strip f"
  by (simp add: window_final_def script_kaldi_def)

text \<open>
  C5 (as the code has it). For every window processed in sub-chunks: a non-empty result
  of the final call supersedes everything. Otherwise, when no sub-chunk gave a non-empty
  committed result, the transcription kept is a longest non-empty partial hypothesis
  seen across the sub-chunks (empty when there is none); and when one did, the
  transcription kept is the last such committed result or a strictly longer partial seen
  after it, and no partial seen after it is longer than the transcription kept.
\<close>

theorem window_transcription_policy:
  "(window_final K r w \<noteq> [] \<longrightarrow> fst (transcribe_window K r w) = window_final K r w) \<and>
   (window_final K r w = [] \<and> committed (window_replies K r w) = [] \<longrightarrow>
      (if partials (window_replies K r w) = [] then fst (transcribe_window K r w) = []
       else fst (transcribe_window K r w) \<in> set (partials (window_replies K r w))) \<and>
      (\<forall>p \<in> set (partials (window_replies K r w)).
         length p \<le> length (fst (transcribe_window K r w)))) \<and>
   (\<forall>pre c post.
      window_final K r w = [] \<and> window_replies K r w = pre @ Inr (Result c) # post \<and>
      strip c \<noteq> [] \<and> committed post = [] \<longrightarrow>
      (fst (transcribe_window K r w) = strip c \<or>
       fst (transcribe_window K r w) \<in> set (partials post) \<and>
       length (strip c) < length (fst (transcribe_window K r w))) \<and>
      (\<forall>p \<in> set (partials post). length p \<le> length (fst (transcribe_window K r w))))"
proof (intro conjI allI impI)
  assume "window_final K r w \<noteq> []"
  then show "fst (transcribe_window K r w) = window_final K r w"
    by (simp add: transcribe_window_keep)
next
  assume a: "window_final K r w = [] \<and> committed (window_replies K r w) = []"
  then have t: "fst (transcribe_window K r w) = foldl keep [] (window_replies K r w)"
    by (simp add: transcribe_window_keep)
  from a have c: "committed (window_replies K r w) = []"
    by simp
  note k = keep_longest_partial [OF c, of "[]"]
  from k show longest: "\<forall>p \<in> set (partials (window_replies K r w)).
      length p \<le> length (fst (transcribe_window K r w))"
    unfolding t by blast
  have nonempty: "p \<noteq> []" if "p \<in> set (partials rs)" for p rs
    using that by (induction rs rule: partials.induct) (auto split: if_splits)
  show "if partials (window_replies K r w) = [] then fst (transcribe_window K r w) = []
      else fst (transcribe_window K r w) \<in> set (partials (window_replies K r w))"
  proof (cases "partials (window_replies K r w) = []")
    case True
    with k show ?thesis
      unfolding t by auto
  next
    case False
    then obtain p where p: "p \<in> set (partials (window_replies K r w))"
      by (cases "partials (window_replies K r w)") auto
    with nonempty longest have "fst (transcribe_window K r w) \<noteq> []"
      by force
    with k False show ?thesis
      unfolding t by auto
  qed
next
  fix pre c post
  assume a: "window_final K r w = [] \<and> window_replies K r w = pre @ Inr (Result c) # post \<and>
      strip c \<noteq> [] \<and> committed post = []"
  then have t: "fst (transcribe_window K r w) = foldl keep (strip c) post"
    by (simp add: transcribe_window_keep)
  from a have c: "committed post = []"
    by simp
  note k = keep_longest_partial [OF c, of "strip c"]
  from k show "fst (transcribe_window K r w) = strip c \<or>
       fst (transcribe_window K r w) \<in> set (partials post) \<and>
       length (strip c) < length (fst (transcribe_window K r w))"
    unfolding t by blast
  from k show "\<forall>p \<in> set (partials post). length p \<le> length (fst (transcribe_window K r w))"
    unfolding t by blast
qed

theorem window_transcription_policy_witness:
  "window_final (script_kaldi [Inr (PartialResult (py ''hello'')),
        Inr (PartialResult (py ''hello world'')), Inr (PartialResult (py ''hello''))] [])
      0 three_chunks = [] \<and>
   committed (window_replies (script_kaldi [Inr (PartialResult (py ''hello'')),
        Inr (PartialResult (py ''hello world'')), Inr (PartialResult (py ''hello''))] [])
      0 three_chunks) = [] \<and>
   partials (window_replies (script_kaldi [Inr (PartialResult (py ''hello'')),
        Inr (PartialResult (py ''hello world'')), Inr (PartialResult (py ''hello''))] [])
      0 three_chunks) = [py ''hello'', py ''hello world'', py ''hello''] \<and>
   fst (transcribe_window (script_kaldi [Inr (PartialResult (py ''hello'')),
        Inr (PartialResult (py ''hello world'')), Inr (PartialResult (py ''hello''))] [])
      0 three_chunks) = py ''hello world'' \<and>
   window_final (script_kaldi [Inr (PartialResult (py ''hello''))] (py ''hi'')) 0 three_chunks
     = py ''hi'' \<and>
   fst (transcribe_window (script_kaldi [Inr (PartialResult (py ''hello''))] (py ''hi''))
      0 three_chunks) = py ''hi''"
proof -
  let ?K = "script_kaldi [Inr (PartialResult (py ''hello'')),
        Inr (PartialResult (py ''hello world'')), Inr (PartialResult (py ''hello''))] []"
  let ?F = "script_kaldi [Inr (PartialResult (py ''hello''))] (py ''hi'')"
  have f: "window_final ?K 0 three_chunks = []"
    by (simp add: script_final strip_def)
  have c: "committed (window_replies ?K 0 three_chunks) = []"
    by (simp add: script_replies_three)
  have p: "partials (window_replies ?K 0 three_chunks)
      = [py ''hello'', py ''hello world'', py ''hello'']"
    by (simp add: script_replies_three strip_def isspace_def)
  have t: "fst (transcribe_window ?K 0 three_chunks) = py ''hello world''"
    by (simp add: transcribe_window_keep script_final script_replies_three strip_def
        isspace_def)
  have g: "window_final ?F 0 three_chunks = py ''hi''"
    by (simp add: script_final strip_def isspace_def)
  from g have "window_final ?F 0 three_chunks \<noteq> []"
    by simp
  with window_transcription_policy [of ?F 0 three_chunks]
  have "fst (transcribe_window ?F 0 three_chunks) = window_final ?F 0 three_chunks"
    by blast
  with f c p t g show ?thesis
    by simp
qed

text \<open>
  The claim as the spec words it fails: when the recognizer answers the first sub-chunk
  with the partial \<open>hello world\<close>, commits the result \<open>hello\<close> at the second, and its
  final result is empty, the transcription kept is \<open>hello\<close>, not the longest partial seen.
\<close>

theorem window_transcription_counterexample:
  "window_replies
     (script_kaldi [Inr (PartialResult (py ''hello world'')), Inr (Result (py ''hello''))] [])
     0 two_chunks
     = [Inr (PartialResult (py ''hello world'')), Inr (Result (py ''hello''))] \<and>
   partials (window_replies
     (script_kaldi [Inr (PartialResult (py ''hello world'')), Inr (Result (py ''hello''))] [])
     0 two_chunks) = [py ''hello world''] \<and>
   window_final
     (script_kaldi [Inr (PartialResult (py ''hello world'')), Inr (Result (py ''hello''))] [])
     0 two_chunks = [] \<and>
   fst (transcribe_window
     (script_kaldi [Inr (PartialResult (py ''hello world'')), Inr (Result (py ''hello''))] [])
     0 two_chunks) = py ''hello''"
  by (simp add: transcribe_window_keep script_final script_replies_two strip_def isspace_def)

section \<open>Facts about the processing thread\<close>

lemma process_chunk_console:
  "\<exists>new. console (process_chunk K self st audio_chunk) = console st @ new \<and>
     (heard new = [] \<and> said new = [] \<and>
        last_transcription (process_chunk K self st audio_chunk) = last_transcription st
      \<or> (\<exists>t. heard new = [t] \<and> 2 < length t \<and> t \<noteq> last_transcription st \<and>
            set (said new) \<subseteq> {response t} \<and>
            last_transcription (process_chunk K self st audio_chunk) = t))"
proof (cases "sample_rate self * 3 \<le> length (audio_buffer st @ audio_chunk)")
  case False
  then have "process_chunk K self st audio_chunk
      = st\<lparr>audio_buffer := audio_buffer st @ audio_chunk\<rparr>"
    by (simp add: process_chunk_def Let_def)
  then show ?thesis by simp
next
  case full: True
  show ?thesis
  proof (cases "vosk_recognizer self")
    case None
    with full have "process_chunk K self st audio_chunk
        = st\<lparr>audio_buffer := [], processing_count := processing_count st + 1,
             console := (console st @ [Processing (processing_count st + 1)]) @ [NoRecognizer]\<rparr>"
      by (simp add: process_chunk_def Let_def)
    then show ?thesis by simp
  next
    case (Some v)
    show ?thesis
    proof (cases "construct K")
      case (Inl e)
      with full Some have "process_chunk K self st audio_chunk
          = st\<lparr>audio_buffer := audio_buffer st @ audio_chunk,
               processing_count := processing_count st + 1,
               console := (console st @ [Processing (processing_count st + 1)])
                 @ [ProcessingError]\<rparr>"
        by (simp add: process_chunk_def Let_def)
      then show ?thesis by simp
    next
      case (Inr r)
      obtain t errors where tw: "transcribe_window K r (audio_buffer st @ audio_chunk) = (t, errors)"
        by (cases "transcribe_window K r (audio_buffer st @ audio_chunk)")
      with transcribe_window_silent [of K r "audio_buffer st @ audio_chunk"]
      have silent: "heard errors = []" "said errors = []"
        by simp_all
      obtain emitted l where em: "emit_transcription self (last_transcription st) t = (emitted, l)"
        by (cases "emit_transcription self (last_transcription st) t")
      from full Some Inr tw em have pc: "process_chunk K self st audio_chunk
          = \<lparr>audio_buffer = [], last_transcription = l,
             processing_count = processing_count st + 1,
             console = (console st @ [Processing (processing_count st + 1)]) @ errors @ emitted\<rparr>"
        by (simp add: process_chunk_def Let_def)
      let ?new = "Processing (processing_count st + 1) # errors @ emitted"
      have c: "console (process_chunk K self st audio_chunk) = console st @ ?new"
        by (simp add: pc)
      show ?thesis
      proof (cases "t \<noteq> [] \<and> t \<noteq> last_transcription st \<and> 2 < length t")
        case True
        with em have "emitted = Heard (language_tag self) t # speak_text self (response t)"
          and "l = t"
          by (auto simp add: emit_transcription_def)
        with silent have "heard ?new = [t]" and "set (said ?new) \<subseteq> {response t}"
          by (auto simp add: heard_append said_append heard_speak_text said_speak_text
              split: option.splits)
        with True c pc \<open>l = t\<close> show ?thesis
          by (intro exI [of _ ?new]) simp
      next
        case False
        with em have "emitted = [NoSpeech]" and "l = last_transcription st"
          by (auto simp add: emit_transcription_def)
        with silent have "heard ?new = []" and "said ?new = []"
          by (simp_all add: heard_append said_append)
        with c pc \<open>l = last_transcription st\<close> show ?thesis
          by (intro exI [of _ ?new]) simp
      qed
    qed
  qed
qed

lemma dispatch_inv_step:
  assumes "dispatch_inv st"
  shows "dispatch_inv (process_chunk K self st audio_chunk)"
proof -
  let ?st = "process_chunk K self st audio_chunk"
  from process_chunk_console [of K self st audio_chunk]
  obtain new where c: "console ?st = console st @ new"
    and cases: "heard new = [] \<and> said new = [] \<and> last_transcription ?st = last_transcription st
      \<or> (\<exists>t. heard new = [t] \<and> 2 < length t \<and> t \<noteq> last_transcription st \<and>
            set (said new) \<subseteq> {response t} \<and> last_transcription ?st = t)"
    by blast
  from cases show ?thesis
  proof
    assume "heard new = [] \<and> said new = [] \<and> last_transcription ?st = last_transcription st"
    with assms c show ?thesis
      by (simp add: dispatch_inv_def heard_append said_append)
  next
    assume "\<exists>t. heard new = [t] \<and> 2 < length t \<and> t \<noteq> last_transcription st \<and>
        set (said new) \<subseteq> {response t} \<and> last_transcription ?st = t"
    then obtain t where t: "heard new = [t]" "2 < length t" "t \<noteq> last_transcription st"
      "set (said new) \<subseteq> {response t}" "last_transcription ?st = t"
      by blast
    from assms t have adj: "distinct_adj (heard (console st) @ [t])"
      by (auto simp add: dispatch_inv_def distinct_adj_append_iff)
    from t have spoken: "\<forall>x \<in> set (said new). \<exists>t. x = response t \<and> 2 < length t"
      by auto
    from assms c t adj spoken show ?thesis
      by (auto simp add: dispatch_inv_def heard_append said_append)
  qed
qed

lemma dispatch_inv_queue: "dispatch_inv (working_process_audio_queue K self chunks)"
proof (induction chunks rule: rev_induct)
  case Nil
  then show ?case
    by (simp add: working_process_audio_queue_def processing_start_def dispatch_inv_def)
next
  case (snoc audio_chunk chunks)
  then show ?case
    by (simp add: working_process_audio_queue_def dispatch_inv_step)
qed

text \<open>
  C4. Feeding the filter the same transcript twice in a row yields exactly one
  emission (one printed transcript, and one spoken answer when a speech engine is
  present) when the transcript is new and longer than two characters, and never more than
  one; the second of the two is discarded in every case, as is any transcript identical to the one emitted last,
  and \<open>last_transcription\<close> changes only in a call that emits. So, whatever chunks the
  processing thread takes from the queue, it never prints the same transcript twice in a
  row.
\<close>

theorem same_transcript_twice_emits_once:
  "(2 < length t \<and> t \<noteq> last_t \<longrightarrow>
      heard (fst (feed_twice self last_t t)) = [t] \<and>
      said (fst (feed_twice self last_t t))
        = (case tts_engine self of None \<Rightarrow> [] | Some say \<Rightarrow> [response t]) \<and>
      snd (feed_twice self last_t t) = t) \<and>
   length (heard (fst (feed_twice self last_t t))) \<le> 1 \<and>
   fst (emit_transcription self (snd (emit_transcription self last_t t)) t) = [NoSpeech] \<and>
   emit_transcription self t t = ([NoSpeech], t) \<and>
   snd (emit_transcription self last_t t)
     = (if heard (fst (emit_transcription self last_t t)) = [] then last_t else t) \<and>
   distinct_adj (heard (console (working_process_audio_queue K self chunks)))"
proof (intro conjI impI)
  assume new: "2 < length t \<and> t \<noteq> last_t"
  then have first: "emit_transcription self last_t t
      = (Heard (language_tag self) t # speak_text self (response t), t)"
    by (simp add: emit_transcription_new)
  then have twice: "feed_twice self last_t t
      = (Heard (language_tag self) t # speak_text self (response t) @ [NoSpeech], t)"
    by (simp add: feed_twice_def emit_transcription_same)
  show "heard (fst (feed_twice self last_t t)) = [t]"
    by (simp add: twice heard_append heard_speak_text)
  show "said (fst (feed_twice self last_t t))
      = (case tts_engine self of None \<Rightarrow> [] | Some say \<Rightarrow> [response t])"
    by (simp add: twice said_append said_speak_text)
  show "snd (feed_twice self last_t t) = t"
    by (simp add: twice)
next
  show "length (heard (fst (feed_twice self last_t t))) \<le> 1"
    using emit_transcription_cases [of self last_t t]
    by (auto simp add: feed_twice_def emit_transcription_same heard_append heard_speak_text)
next
  show "fst (emit_transcription self (snd (emit_transcription self last_t t)) t) = [NoSpeech]"
    using emit_transcription_cases [of self last_t t]
    by (auto simp add: emit_transcription_same)
next
  show "emit_transcription self t t = ([NoSpeech], t)"
    by (rule emit_transcription_same)
next
  show "snd (emit_transcription self last_t t)
      = (if heard (fst (emit_transcription self last_t t)) = [] then last_t else t)"
    using emit_transcription_cases [of self last_t t] by auto
next
  show "distinct_adj (heard (console (working_process_audio_queue K self chunks)))"
    using dispatch_inv_queue [of K self chunks] by (simp add: dispatch_inv_def)
qed

theorem same_transcript_twice_emits_once_witness:
  "2 < length (py ''hello'') \<and> py ''hello'' \<noteq> [] \<and>
   heard (fst (feed_twice (recording_system (None :: unit option) None) [] (py ''hello'')))
     = [py ''hello''] \<and>
   snd (feed_twice (recording_system (None :: unit option) None) [] (py ''hello''))
     = py ''hello''"
  using same_transcript_twice_emits_once
    [where t = "py ''hello''" and last_t = "[]"
       and self = "recording_system (None :: unit option) None"]
  by simp

text \<open>
  C8. A transcript of at most two characters never reaches the dispatcher: the filter of
  realtime\_working.py writes only its no-speech mark and keeps \<open>last_transcription\<close>,
  and a turn of the loop of simple\_working.py whose chunk gives such a text neither
  prints nor speaks it. So, whatever chunks the processing thread of realtime\_working.py
  takes from the queue, every transcript it prints is longer than two characters, and
  every text it speaks is the answer to such a transcript.
\<close>

theorem short_transcript_never_dispatched:
  "(length t \<le> 2 \<longrightarrow> emit_transcription self last_t t = ([NoSpeech], last_t)) \<and>
   (length (fst (simple_process_audio_chunk K s audio_data)) \<le> 2 \<longrightarrow>
      heard (snd (run_turn K s (Inr audio_data))) = [] \<and>
      said (snd (run_turn K s (Inr audio_data))) = []) \<and>
   (\<forall>x \<in> set (heard (console (working_process_audio_queue K' self chunks))). 2 < length x) \<and>
   (\<forall>x \<in> set (said (console (working_process_audio_queue K' self chunks))).
      \<exists>y. x = response y \<and> 2 < length y)"
proof (intro conjI impI)
  assume "length t \<le> 2"
  then show "emit_transcription self last_t t = ([NoSpeech], last_t)"
    by (rule emit_transcription_short)
next
  assume short: "length (fst (simple_process_audio_chunk K s audio_data)) \<le> 2"
  obtain tx s1 errors where p: "simple_process_audio_chunk K s audio_data = (tx, s1, errors)"
    by (cases "simple_process_audio_chunk K s audio_data")
  then have e: "errors = [] \<or> errors = [ProcessingError]"
    by (auto simp add: simple_process_audio_chunk_def split: option.splits prod.splits
        sum.splits reply.splits)
  from short p have "run_turn K s (Inr audio_data) = (s1, errors)"
    by (simp add: run_turn_def)
  with e show "heard (snd (run_turn K s (Inr audio_data))) = []"
    and "said (snd (run_turn K s (Inr audio_data))) = []"
    by auto
next
  show "\<forall>x \<in> set (heard (console (working_process_audio_queue K' self chunks))). 2 < length x"
    using dispatch_inv_queue [of K' self chunks] by (simp add: dispatch_inv_def)
  show "\<forall>x \<in> set (said (console (working_process_audio_queue K' self chunks))).
      \<exists>y. x = response y \<and> 2 < length y"
    using dispatch_inv_queue [of K' self chunks] by (simp add: dispatch_inv_def)
qed

theorem short_transcript_never_dispatched_witness:
  "length (py ''ok'') \<le> 2 \<and>
   emit_transcription (recording_system (None :: unit option) None) [] (py ''ok'')
     = ([NoSpeech], []) \<and>
   fst (simple_process_audio_chunk (script_kaldi [Inr (Result (py ''ok''))] [])
          \<lparr>simple_vosk_recognizer = Some 0, simple_tts_engine = None\<rparr> [0, 1]) = py ''ok'' \<and>
   heard (snd (run_turn (script_kaldi [Inr (Result (py ''ok''))] [])
          \<lparr>simple_vosk_recognizer = Some 0, simple_tts_engine = None\<rparr> (Inr [0, 1]))) = []"
proof -
  have t: "fst (simple_process_audio_chunk (script_kaldi [Inr (Result (py ''ok''))] [])
          \<lparr>simple_vosk_recognizer = Some 0, simple_tts_engine = None\<rparr> [0, 1]) = py ''ok''"
    by (simp add: simple_process_audio_chunk_def script_kaldi_def strip_def isspace_def)
  show ?thesis
    using t short_transcript_never_dispatched
      [where t = "py ''ok''" and self = "recording_system (None :: unit option) None"
         and last_t = "[]" and K = "script_kaldi [Inr (Result (py ''ok''))] []"
         and s = "\<lparr>simple_vosk_recognizer = Some 0, simple_tts_engine = None\<rparr>"
         and audio_data = "[0, 1]"]
    by simp
qed

end
